theory Spec2Isabelle
  imports Complex_Main "HOL-Library.AList"
begin

section \<open>The statistics tracker of mattport/utils/stats\_tracker.py\<close>

text \<open>
  The class \<open>StatsTracker\<close> keeps, per tracked statistic, either the latest value or a
  bounded history of values with its mean, the step of the latest update and a flag for a
  key seen for the first time. Its methods mutate the object; here each method takes the
  object and returns the outcome of the call: the object as the call left it, with the
  value returned or the exception raised.

  Python's \<open>float\<close> is modelled by \<open>real\<close> and Python's \<open>int\<close> by \<open>int\<close>: rounding,
  overflow to infinity and NaN are left out, so every statement below is about the
  arithmetic the code writes down, carried out exactly.

  Line 37 wraps every method of the class in the decorators \<open>check_stats_enabled\<close> and
  \<open>check_main_thread\<close>, and line 174 wraps \<open>print_stats\<close> in \<open>check_print_stats_step\<close>;
  they come from \<open>mattport.utils.decorators\<close>, which is not part of this file. The
  definitions below are the method bodies, that is, what runs once the decorators have
  let the call through.
\<close>

subsection \<open>Data\<close>

text \<open>The enum \<open>Stats\<close> (lines 40 to 52), its members and their values.\<close>

datatype Stats =
  ITER_LOAD_TIME | ITER_TRAIN_TIME | TOTAL_TRAIN_TIME | RAYS_PER_SEC | CURR_TEST_PSNR | ETA

fun Stats_value :: "Stats \<Rightarrow> string" where
  "Stats_value ITER_LOAD_TIME = ''Data Load (ms)''"
| "Stats_value ITER_TRAIN_TIME = ''Train Iter (ms)''"
| "Stats_value TOTAL_TRAIN_TIME = ''Train Total (time)''"
| "Stats_value RAYS_PER_SEC = ''Rays Per Sec (1/s)''"
| "Stats_value CURR_TEST_PSNR = ''Test PSNR''"
| "Stats_value ETA = ''ETA (time)''"

datatype py_error =
  KeyError | TypeError | IndexError | ZeroDivisionError | NotImplementedError

text \<open>\<open>Stats[name]\<close>: the member of that name, \<open>KeyError\<close> when there is none.\<close>

definition Stats_getitem :: "string \<Rightarrow> py_error + Stats" where
  "Stats_getitem name =
     (if name = ''ITER_LOAD_TIME'' then Inr ITER_LOAD_TIME
      else if name = ''ITER_TRAIN_TIME'' then Inr ITER_TRAIN_TIME
      else if name = ''TOTAL_TRAIN_TIME'' then Inr TOTAL_TRAIN_TIME
      else if name = ''RAYS_PER_SEC'' then Inr RAYS_PER_SEC
      else if name = ''CURR_TEST_PSNR'' then Inr CURR_TEST_PSNR
      else if name = ''ETA'' then Inr ETA
      else Inl KeyError)"

text \<open>
  A value of \<open>stats_dict\<close> is a number (line 85, line 121) or the dictionary
  \<open>{"buffer": ..., "avg": ...}\<close> (line 118).
\<close>

datatype entry = Scalar real | Averaged (buffer: "real list") (avg: real)

text \<open>The fields of the configuration that the class reads.\<close>

record DictConfig =
  enable_stats :: bool
  cfg_max_history :: int
  cfg_stats_to_track :: "string list"
  max_num_iterations :: int

text \<open>
  The object. \<open>stats_dict\<close> is a Python dictionary, which keeps its keys in the order of
  their first insertion: an association list, written with \<open>AList.update\<close> (a present
  key keeps its place, a new one goes last) and read with \<open>map_of\<close>. \<open>step\<close> is
  \<open>None\<close> after \<open>update_time\<close> was called without a step.
\<close>

record StatsTracker =
  config :: DictConfig
  max_history :: int
  step :: "int option"
  stats_dict :: "(Stats \<times> entry) list"
  past_stats :: "string list"
  new_key :: bool
  stats_to_track :: "Stats set"

text \<open>The outcome of a call: it returns a value or raises, and leaves the object behind.\<close>

datatype 'a outcome = Done 'a StatsTracker | Raised py_error StatsTracker

fun state_of :: "'a outcome \<Rightarrow> StatsTracker" where
  "state_of (Done r s) = s"
| "state_of (Raised e s) = s"

fun returns :: "'a outcome \<Rightarrow> bool" where
  "returns (Done r s) = True"
| "returns (Raised e s) = False"

subsection \<open>Construction (lines 59 to 72)\<close>

fun add_tracked :: "string list \<Rightarrow> Stats set \<Rightarrow> py_error + Stats set" where
  "add_tracked [] acc = Inr acc"
| "add_tracked (name # names) acc =
     (case Stats_getitem name of
        Inl e \<Rightarrow> Inl e
      | Inr k \<Rightarrow> add_tracked names (insert k acc))"

text \<open>
  With statistics disabled the constructor sets no field but \<open>config\<close>: the result is
  \<open>None\<close>, an object on which no method body runs.
\<close>

definition StatsTracker_init :: "DictConfig \<Rightarrow> py_error + StatsTracker option" where
  "StatsTracker_init cfg =
     (if enable_stats cfg then
        (case add_tracked (cfg_stats_to_track cfg) {} of
           Inl e \<Rightarrow> Inl e
         | Inr tracked \<Rightarrow>
             Inr (Some \<lparr>config = cfg, max_history = cfg_max_history cfg, step = Some 0,
                        stats_dict = [], past_stats = [], new_key = False,
                        stats_to_track = tracked\<rparr>))
      else Inr None)"

subsection \<open>\<open>update_value\<close> (lines 74 to 85)\<close>

definition update_value :: "StatsTracker \<Rightarrow> Stats \<Rightarrow> real \<Rightarrow> int \<Rightarrow> unit outcome" where
  "update_value self name val stp =
     (if name \<in> stats_to_track self then
        Done () (self\<lparr>step := Some stp,
                      new_key := (map_of (stats_dict self) name = None \<or> new_key self),
                      stats_dict := AList.update name (Scalar val) (stats_dict self)\<rparr>)
      else Done () self)"

subsection \<open>\<open>update_time\<close> (lines 87 to 126)\<close>

text \<open>
  Lines 104 to 107: the duration, or the batch size over the duration when
  \<open>batch_size\<close> is truthy (present and not zero). Dividing by a zero duration raises.
\<close>

definition derive_val :: "real \<Rightarrow> real \<Rightarrow> int option \<Rightarrow> py_error + real" where
  "derive_val start_time end_time batch_size =
     (let val = end_time - start_time in
      case batch_size of
        None \<Rightarrow> Inr val
      | Some b \<Rightarrow>
          if b = 0 then Inr val
          else if val = 0 then Inl ZeroDivisionError
          else Inr (real_of_int b / val))"

text \<open>
  Lines 114 to 116: \<open>pop(0)\<close> when the buffer has reached \<open>max_history\<close>, then
  \<open>append\<close>. \<open>pop\<close> on an empty list raises \<open>IndexError\<close>.
\<close>

definition push_history :: "int \<Rightarrow> real list \<Rightarrow> real \<Rightarrow> py_error + real list" where
  "push_history mh curr_buffer val =
     (if int (length curr_buffer) \<ge> mh then
        (case curr_buffer of
           [] \<Rightarrow> Inl IndexError
         | oldest # rest \<Rightarrow> Inr (rest @ [val]))
      else Inr (curr_buffer @ [val]))"

text \<open>
  Lines 109 to 121. Subscripting a number with \<open>"buffer"\<close> raises \<open>TypeError\<close>. The
  buffer holds at least the appended value when the mean is taken, so that division
  never raises.
\<close>

definition store_val :: "StatsTracker \<Rightarrow> Stats \<Rightarrow> real \<Rightarrow> int option \<Rightarrow> unit outcome" where
  "store_val self name val stp =
     (case stp of
        Some n \<Rightarrow>
          (case (case map_of (stats_dict self) name of
                   None \<Rightarrow> Averaged [] 0
                 | Some curr_history \<Rightarrow> curr_history) of
             Scalar x \<Rightarrow> Raised TypeError self
           | Averaged curr_buffer curr_avg \<Rightarrow>
               (case push_history (max_history self) curr_buffer val of
                  Inl e \<Rightarrow> Raised e self
                | Inr b \<Rightarrow>
                    Done () (self\<lparr>stats_dict :=
                      AList.update name (Averaged b (sum_list b / real (length b)))
                        (stats_dict self)\<rparr>)))
      | None \<Rightarrow>
          Done () (self\<lparr>stats_dict := AList.update name (Scalar val) (stats_dict self)\<rparr>))"

text \<open>
  Lines 123 to 126. Subtracting \<open>None\<close> from the number of iterations raises
  \<open>TypeError\<close>, and so does subscripting a number with \<open>"avg"\<close>.
\<close>

definition update_eta :: "StatsTracker \<Rightarrow> Stats \<Rightarrow> int option \<Rightarrow> unit outcome" where
  "update_eta self name stp =
     (if name = ITER_TRAIN_TIME \<and> ETA \<in> stats_to_track self then
        (case stp of
           None \<Rightarrow> Raised TypeError self
         | Some n \<Rightarrow>
             (let remain_iter = max_num_iterations (config self) - n in
              case map_of (stats_dict self) name of
                None \<Rightarrow> Raised KeyError self
              | Some (Scalar x) \<Rightarrow> Raised TypeError self
              | Some (Averaged b a) \<Rightarrow>
                  Done () (self\<lparr>stats_dict :=
                    AList.update ETA (Scalar (real_of_int remain_iter * a))
                      (stats_dict self)\<rparr>)))
      else Done () self)"

definition update_time ::
  "StatsTracker \<Rightarrow> Stats \<Rightarrow> real \<Rightarrow> real \<Rightarrow> int option \<Rightarrow> int option \<Rightarrow> unit outcome" where
  "update_time self name start_time end_time stp batch_size =
     (if name \<in> stats_to_track self then
        (let self1 = self\<lparr>step := stp,
                new_key := (map_of (stats_dict self) name = None \<or> new_key self)\<rparr> in
         case derive_val start_time end_time batch_size of
           Inl e \<Rightarrow> Raised e self1
         | Inr val \<Rightarrow>
             (case store_val self1 name val stp of
                Raised e self2 \<Rightarrow> Raised e self2
              | Done u self2 \<Rightarrow> update_eta self2 name stp))
      else Done () self)"

subsection \<open>Printing (lines 128 to 179)\<close>

text \<open>
  What the methods print is kept as data: a header is a list of printed items, a row of
  statistics is the step, the percentage and one cell per key, tagged by the branch of
  lines 151 to 157 that formats it. The rendering of a number as text is left out.
\<close>

datatype printed = CursorUp int | Line string

datatype cell = TimeCell real | MsCell real | PlainCell real

type_synonym row = "int \<times> real \<times> (Stats \<times> cell) list"

definition ljust :: "nat \<Rightarrow> string \<Rightarrow> string" where
  "ljust w s = s @ replicate (w - length s) (CHR '' '')"

fun starts_with :: "string \<Rightarrow> string \<Rightarrow> bool" where
  "starts_with [] ys = True"
| "starts_with (x # xs) [] = False"
| "starts_with (x # xs) (y # ys) = (x = y \<and> starts_with xs ys)"

text \<open>Python's \<open>needle in haystack\<close> on strings.\<close>

fun contains :: "string \<Rightarrow> string \<Rightarrow> bool" where
  "contains needle [] = (needle = [])"
| "contains needle (y # ys) = (starts_with needle (y # ys) \<or> contains needle ys)"

definition handle_header :: "StatsTracker \<Rightarrow> printed list outcome" where
  "handle_header self =
     (if step self = Some 0 \<or> new_key self then
        (let mssg = ljust 20 ''Step (% Done)'' @
               concat (map (\<lambda>(k, v). ljust 20 (Stats_value k) @ '' '') (stats_dict self)) in
         case step self of
           None \<Rightarrow> Raised TypeError self
         | Some n \<Rightarrow>
             Done ((if n > 0 then [CursorUp (int (length (past_stats self)) + 2)] else []) @
                   [Line mssg, Line (replicate (length mssg) (CHR ''-''))] @
                   (if n > 0 then map Line (past_stats self) else [])) self)
      else Done [] self)"

definition fmt_cell :: "Stats \<Rightarrow> real \<Rightarrow> cell" where
  "fmt_cell k v =
     (if contains ''(time)'' (Stats_value k) then TimeCell v
      else if contains ''(ms)'' (Stats_value k) then MsCell (v * 1000)
      else PlainCell v)"

text \<open>Line 144 compares \<open>self.step\<close> with 0, which raises \<open>TypeError\<close> on \<open>None\<close>.\<close>

definition handle_stats :: "StatsTracker \<Rightarrow> real \<Rightarrow> row option outcome" where
  "handle_stats self fraction_done =
     (case step self of
        None \<Rightarrow> Raised TypeError self
      | Some n \<Rightarrow>
          if n > 0 then
            Done (Some (n, fraction_done * 100,
                    map (\<lambda>(k, v). (k, fmt_cell k (case v of Scalar x \<Rightarrow> x | Averaged b a \<Rightarrow> a)))
                      (stats_dict self))) self
          else Done None self)"

text \<open>
  The body of \<open>print_stats\<close> (lines 175 to 179): the call of \<open>handle_header\<close> is
  commented out in the source.
\<close>

definition print_stats :: "StatsTracker \<Rightarrow> real \<Rightarrow> row option outcome" where
  "print_stats self fraction_done = handle_stats self fraction_done"

subsection \<open>Sequences of calls\<close>

text \<open>
  The argument dictionaries that \<open>update_stats\<close> (lines 17 to 25) dispatches on: one
  with \<open>"value"\<close>, one with \<open>"start_time"\<close>, anything else.
\<close>

datatype args =
  ValueArgs Stats real int
| TimeArgs Stats real real "int option" "int option"
| OtherArgs

fun update_stats :: "StatsTracker \<Rightarrow> args \<Rightarrow> unit outcome" where
  "update_stats self (ValueArgs name val stp) = update_value self name val stp"
| "update_stats self (TimeArgs name start_time end_time stp batch_size) =
     update_time self name start_time end_time stp batch_size"
| "update_stats self OtherArgs = Raised NotImplementedError self"

text \<open>The key and the step that an argument dictionary supplies.\<close>

fun arg_name :: "args \<Rightarrow> Stats option" where
  "arg_name (ValueArgs name val stp) = Some name"
| "arg_name (TimeArgs name start_time end_time stp batch_size) = Some name"
| "arg_name OtherArgs = None"

fun arg_step :: "args \<Rightarrow> int option" where
  "arg_step (ValueArgs name val stp) = Some stp"
| "arg_step (TimeArgs name start_time end_time stp batch_size) = stp"
| "arg_step OtherArgs = None"

text \<open>An operation of the store: an update or a call of \<open>print_stats\<close>.\<close>

datatype operation = Update args | Print real

fun after :: "StatsTracker \<Rightarrow> operation \<Rightarrow> StatsTracker" where
  "after self (Update a) = state_of (update_stats self a)"
| "after self (Print fraction_done) = state_of (print_stats self fraction_done)"

fun op_returns :: "StatsTracker \<Rightarrow> operation \<Rightarrow> bool" where
  "op_returns self (Update a) = returns (update_stats self a)"
| "op_returns self (Print fraction_done) = returns (print_stats self fraction_done)"

text \<open>
  The object after a caller has made the calls in order, going on after a call that
  raised, and whether every call of the sequence returned.
\<close>

fun run :: "StatsTracker \<Rightarrow> operation list \<Rightarrow> StatsTracker" where
  "run self [] = self"
| "run self (c # cs) = run (after self c) cs"

fun all_return :: "StatsTracker \<Rightarrow> operation list \<Rightarrow> bool" where
  "all_return self [] = True"
| "all_return self (c # cs) = (op_returns self c \<and> all_return (after self c) cs)"

subsection \<open>The values a key has recorded\<close>

text \<open>The last \<open>mh\<close> elements of a list, all of it when it is shorter.\<close>

definition most_recent :: "int \<Rightarrow> 'a list \<Rightarrow> 'a list" where
  "most_recent mh vs = drop (length vs - nat mh) vs"

text \<open>
  The value that an operation hands to the buffer of key \<open>k\<close>: the value derived at
  lines 104 to 107 by a call of \<open>update_time\<close> that names \<open>k\<close> and has a step, nothing
  when that derivation raises, nothing for any other operation. \<open>recorded\<close> collects
  these values over a sequence of operations, in the order of the calls.
\<close>

fun op_value :: "Stats \<Rightarrow> operation \<Rightarrow> real list" where
  "op_value k (Update (TimeArgs name start_time end_time (Some n) batch_size)) =
     (if name = k
      then (case derive_val start_time end_time batch_size of Inl e \<Rightarrow> [] | Inr v \<Rightarrow> [v])
      else [])"
| "op_value k c = []"

definition recorded :: "Stats \<Rightarrow> operation list \<Rightarrow> real list" where
  "recorded k cs = concat (map (op_value k) cs)"

text \<open>
  The key that an operation names, and whether the operation is a call of \<open>update_time\<close>
  with a step, the only call that reaches the branch of lines 109 to 118.
\<close>

fun op_key :: "operation \<Rightarrow> Stats option" where
  "op_key (Update a) = arg_name a"
| "op_key (Print fraction_done) = None"

fun stepped :: "operation \<Rightarrow> bool" where
  "stepped (Update (TimeArgs name start_time end_time (Some n) batch_size)) = True"
| "stepped c = False"

text \<open>
  How the entry of a key stands to the values recorded for it: absent while nothing was
  recorded (or the key is not tracked, or \<open>max_history\<close> is below one, when line 115
  raises on every call), a number once any call has stored one, or else the last
  \<open>max_history\<close> recorded values with their mean.
\<close>

fun tracks :: "bool \<Rightarrow> int \<Rightarrow> entry option \<Rightarrow> real list \<Rightarrow> bool" where
  "tracks t mh None vs = (vs = [] \<or> \<not> t \<or> mh < 1)"
| "tracks t mh (Some (Scalar x)) vs = True"
| "tracks t mh (Some (Averaged b a)) vs =
     (t \<and> 1 \<le> mh \<and> vs \<noteq> [] \<and> b = most_recent mh vs \<and> a = sum_list b / real (length b))"

subsection \<open>An example object\<close>

text \<open>
  A configuration that tracks three statistics with a history of two values and a budget
  of 1000 iterations, and the object the constructor makes of it.
\<close>

definition example_config :: DictConfig where
  "example_config = \<lparr>enable_stats = True, cfg_max_history = 2,
     cfg_stats_to_track = [''ITER_TRAIN_TIME'', ''ETA'', ''RAYS_PER_SEC''],
     max_num_iterations = 1000\<rparr>"

definition example_tracker :: StatsTracker where
  "example_tracker = \<lparr>config = example_config, max_history = 2, step = Some 0,
     stats_dict = [], past_stats = [], new_key = False,
     stats_to_track = {ITER_TRAIN_TIME, ETA, RAYS_PER_SEC}\<rparr>"

text \<open>The example object after \<open>ITER_TRAIN_TIME\<close> took half a second at step 400.\<close>

definition eta_example_result :: StatsTracker where
  "eta_example_result = example_tracker\<lparr>step := Some 400, new_key := True,
     stats_dict := [(ITER_TRAIN_TIME, Averaged [1 / 2] (1 / 2)), (ETA, Scalar 300)]\<rparr>"

text \<open>
  Six operations on the example object: four timings of \<open>RAYS_PER_SEC\<close>, one of which
  divides by a zero duration, one of \<open>ITER_TRAIN_TIME\<close> and one call of \<open>print_stats\<close>.
\<close>

definition example_calls :: "operation list" where
  "example_calls =
     [Update (TimeArgs RAYS_PER_SEC 0 1 (Some 1) None),
      Update (TimeArgs ITER_TRAIN_TIME 0 2 (Some 1) None),
      Update (TimeArgs RAYS_PER_SEC 0 3 (Some 2) None),
      Update (TimeArgs RAYS_PER_SEC 5 5 (Some 3) (Some 10)),
      Print (1 / 2),
      Update (TimeArgs RAYS_PER_SEC 0 5 (Some 4) None)]"

section \<open>Properties\<close>

lemma init_example: "StatsTracker_init example_config = Inr (Some example_tracker)"
  by (auto simp add: StatsTracker_init_def example_config_def example_tracker_def
      Stats_getitem_def)

lemma init_fresh:
  assumes "StatsTracker_init cfg = Inr (Some self)"
  shows "stats_dict self = [] \<and> step self = Some 0 \<and> \<not> new_key self \<and>
         max_history self = cfg_max_history cfg \<and> config self = cfg"
  using assms by (auto simp add: StatsTracker_init_def split: if_splits sum.splits)

subsection \<open>What a call leaves unchanged\<close>

lemma store_val_fields:
  "stats_to_track (state_of (store_val s name v stp)) = stats_to_track s \<and>
   max_history (state_of (store_val s name v stp)) = max_history s \<and>
   config (state_of (store_val s name v stp)) = config s \<and>
   step (state_of (store_val s name v stp)) = step s \<and>
   new_key (state_of (store_val s name v stp)) = new_key s"
  by (simp add: store_val_def split: option.split entry.split sum.split)

lemma update_eta_fields:
  "stats_to_track (state_of (update_eta s name stp)) = stats_to_track s \<and>
   max_history (state_of (update_eta s name stp)) = max_history s \<and>
   config (state_of (update_eta s name stp)) = config s \<and>
   step (state_of (update_eta s name stp)) = step s \<and>
   new_key (state_of (update_eta s name stp)) = new_key s"
  by (simp add: update_eta_def Let_def split: option.split entry.split)

lemma store_val_other:
  "k \<noteq> name \<Longrightarrow>
   map_of (stats_dict (state_of (store_val s name v stp))) k = map_of (stats_dict s) k"
  by (simp add: store_val_def AList.update_conv' split: option.split entry.split sum.split)

lemma update_eta_other:
  "k \<noteq> ETA \<Longrightarrow>
   map_of (stats_dict (state_of (update_eta s name stp))) k = map_of (stats_dict s) k"
  by (simp add: update_eta_def Let_def AList.update_conv' split: option.split entry.split)

lemma update_eta_noop:
  "name \<noteq> ITER_TRAIN_TIME \<or> ETA \<notin> stats_to_track s \<Longrightarrow> update_eta s name stp = Done () s"
  by (auto simp add: update_eta_def)

text \<open>The object that \<open>update_time\<close> leaves, by the stage the call reaches.\<close>

lemma update_time_state:
  "name \<in> stats_to_track s \<Longrightarrow>
   state_of (update_time s name st en stp bs) =
     (let s1 = s\<lparr>step := stp, new_key := (map_of (stats_dict s) name = None \<or> new_key s)\<rparr> in
      case derive_val st en bs of
        Inl e \<Rightarrow> s1
      | Inr v \<Rightarrow>
          (if returns (store_val s1 name v stp)
           then state_of (update_eta (state_of (store_val s1 name v stp)) name stp)
           else state_of (store_val s1 name v stp)))"
proof -
  assume t: "name \<in> stats_to_track s"
  show ?thesis
  proof (cases "derive_val st en bs")
    case (Inl e)
    with t show ?thesis by (simp add: update_time_def)
  next
    case (Inr v)
    with t show ?thesis
      by (cases "store_val (s\<lparr>step := stp, new_key := (map_of (stats_dict s) name = None \<or> new_key s)\<rparr>) name v stp")
         (simp_all add: update_time_def)
  qed
qed

lemma update_time_fields:
  "stats_to_track (state_of (update_time s name st en stp bs)) = stats_to_track s \<and>
   max_history (state_of (update_time s name st en stp bs)) = max_history s \<and>
   config (state_of (update_time s name st en stp bs)) = config s"
proof (cases "name \<in> stats_to_track s")
  case True
  then show ?thesis
    by (simp add: update_time_state Let_def update_eta_fields store_val_fields split: sum.split)
next
  case False
  then show ?thesis by (simp add: update_time_def)
qed

lemma update_time_step:
  "name \<in> stats_to_track s \<Longrightarrow> step (state_of (update_time s name st en stp bs)) = stp"
  by (simp add: update_time_state Let_def update_eta_fields store_val_fields split: sum.split)

lemma update_time_new_key:
  "name \<in> stats_to_track s \<Longrightarrow>
   new_key (state_of (update_time s name st en stp bs)) =
     (map_of (stats_dict s) name = None \<or> new_key s)"
  by (simp add: update_time_state Let_def update_eta_fields store_val_fields split: sum.split)

lemma update_time_other:
  assumes "k \<noteq> name" and "k \<noteq> ETA \<or> name \<noteq> ITER_TRAIN_TIME \<or> ETA \<notin> stats_to_track s"
  shows "map_of (stats_dict (state_of (update_time s name st en stp bs))) k = map_of (stats_dict s) k"
proof (cases "name \<in> stats_to_track s")
  case False
  then show ?thesis by (simp add: update_time_def)
next
  case True
  show ?thesis
  proof (cases "k = ETA")
    case False
    with True assms(1) show ?thesis
      by (simp add: update_time_state Let_def update_eta_other store_val_other split: sum.split)
  next
    case e: True
    with assms(2) have "name \<noteq> ITER_TRAIN_TIME \<or> ETA \<notin> stats_to_track s" by simp
    then have "\<And>s'. stats_to_track s' = stats_to_track s \<Longrightarrow> update_eta s' name stp = Done () s'"
      by (simp add: update_eta_noop)
    with True assms(1) show ?thesis
      by (simp add: update_time_state Let_def store_val_fields store_val_other split: sum.split)
  qed
qed

lemma print_stats_state: "state_of (print_stats s fd) = s"
  by (simp add: print_stats_def handle_stats_def split: option.split)

lemma handle_stats_state: "state_of (handle_stats s fd) = s"
  by (simp add: handle_stats_def split: option.split)

lemma handle_header_state: "state_of (handle_header s) = s"
  by (simp add: handle_header_def Let_def split: option.split)

lemma update_value_fields:
  "stats_to_track (state_of (update_value s name v n)) = stats_to_track s \<and>
   max_history (state_of (update_value s name v n)) = max_history s \<and>
   config (state_of (update_value s name v n)) = config s"
  by (simp add: update_value_def)

lemma update_value_other:
  "k \<noteq> name \<Longrightarrow>
   map_of (stats_dict (state_of (update_value s name v n))) k = map_of (stats_dict s) k"
  by (simp add: update_value_def AList.update_conv')

lemma after_fields:
  "stats_to_track (after s c) = stats_to_track s \<and> max_history (after s c) = max_history s \<and>
   config (after s c) = config s"
proof (cases c)
  case (Update a)
  then show ?thesis
    by (cases a) (simp_all add: update_value_fields update_time_fields)
next
  case (Print fd)
  then show ?thesis by (simp add: print_stats_state)
qed

lemma run_fields:
  "stats_to_track (run s cs) = stats_to_track s \<and> max_history (run s cs) = max_history s \<and>
   config (run s cs) = config s"
  by (induction cs arbitrary: s) (simp_all add: after_fields)

lemma run_snoc: "run s (cs @ [c]) = after (run s cs) c"
  by (induction cs arbitrary: s) simp_all

text \<open>A call of \<open>update_time\<close> that returns has stored an entry for its key.\<close>

lemma update_time_returns:
  "name \<in> stats_to_track s \<Longrightarrow> returns (update_time s name st en stp bs) \<Longrightarrow>
   \<exists>v. derive_val st en bs = Inr v \<and>
     returns (store_val (s\<lparr>step := stp,
        new_key := (map_of (stats_dict s) name = None \<or> new_key s)\<rparr>) name v stp)"
  by (cases "derive_val st en bs")
     (auto simp add: update_time_def split: outcome.splits)

lemma store_val_present:
  "returns (store_val s name v stp) \<Longrightarrow>
   map_of (stats_dict (state_of (store_val s name v stp))) name \<noteq> None"
  by (auto simp add: store_val_def AList.update_conv' split: option.splits entry.splits sum.splits)

lemma update_eta_present:
  "map_of (stats_dict s) k \<noteq> None \<Longrightarrow>
   map_of (stats_dict (state_of (update_eta s name stp))) k \<noteq> None"
  by (auto simp add: update_eta_def Let_def AList.update_conv' split: option.splits entry.splits)

lemma update_time_present:
  assumes "name \<in> stats_to_track s" and "returns (update_time s name st en stp bs)"
  shows "map_of (stats_dict (state_of (update_time s name st en stp bs))) name \<noteq> None"
proof -
  let ?s1 = "s\<lparr>step := stp, new_key := (map_of (stats_dict s) name = None \<or> new_key s)\<rparr>"
  from update_time_returns [OF assms] obtain v
    where v: "derive_val st en bs = Inr v" and r: "returns (store_val ?s1 name v stp)"
    by blast
  from r have "map_of (stats_dict (state_of (store_val ?s1 name v stp))) name \<noteq> None"
    by (rule store_val_present)
  then have "map_of (stats_dict (state_of
      (update_eta (state_of (store_val ?s1 name v stp)) name stp))) name \<noteq> None"
    by (rule update_eta_present)
  with assms(1) v r show ?thesis
    by (simp add: update_time_state Let_def)
qed

subsection \<open>Keys that are not tracked\<close>

text \<open>
  Claim C3. A call of \<open>update_value\<close> or of \<open>update_time\<close> with a key outside
  \<open>stats_to_track\<close> returns and leaves the whole object as it was: the dictionary, the
  step, the flag and every other field.
\<close>

theorem untracked_key_is_noop:
  assumes "name \<notin> stats_to_track self"
  shows "update_value self name val stp = Done () self \<and>
         update_time self name start_time end_time stp' batch_size = Done () self"
  using assms by (simp add: update_value_def update_time_def)

theorem untracked_key_is_noop_witness:
  "CURR_TEST_PSNR \<notin> stats_to_track example_tracker \<and>
   update_value example_tracker CURR_TEST_PSNR 31.5 7 = Done () example_tracker \<and>
   update_time example_tracker CURR_TEST_PSNR 1 3 (Some 7) (Some 4096) = Done () example_tracker"
proof -
  have h: "CURR_TEST_PSNR \<notin> stats_to_track example_tracker"
    by (simp add: example_tracker_def)
  from untracked_key_is_noop [OF h, of "31.5" 7 1 3 "Some 7" "Some 4096"] h
  show ?thesis by simp
qed

subsection \<open>Single calls of \<open>update_time\<close>\<close>

text \<open>
  Claim C8. A call of \<open>update_time\<close> on a tracked key with a batch size (not zero), a
  duration that is not zero and no step stores the number \<open>batch_size / (end_time -
  start_time)\<close> for the key, whatever the call does after line 121: with start 0, end 2
  and batch size 100 the entry is the number 50.
\<close>

theorem throughput_scalar_stored:
  assumes "name \<in> stats_to_track self" and "b \<noteq> 0" and "end_time - start_time \<noteq> 0"
  shows "map_of (stats_dict (state_of (update_time self name start_time end_time None (Some b)))) name
         = Some (Scalar (real_of_int b / (end_time - start_time)))"
  using assms
  by (simp add: update_time_def derive_val_def store_val_def update_eta_def Let_def
      AList.update_conv')

theorem throughput_scalar_stored_witness:
  "RAYS_PER_SEC \<in> stats_to_track example_tracker \<and> (100::int) \<noteq> 0 \<and> (2::real) - 0 \<noteq> 0 \<and>
   returns (update_time example_tracker RAYS_PER_SEC 0 2 None (Some 100)) \<and>
   map_of (stats_dict (state_of (update_time example_tracker RAYS_PER_SEC 0 2 None (Some 100))))
     RAYS_PER_SEC = Some (Scalar 50)"
proof -
  have h1: "RAYS_PER_SEC \<in> stats_to_track example_tracker"
    by (simp add: example_tracker_def)
  have h2: "(100::int) \<noteq> 0" by simp
  have h3: "(2::real) - 0 \<noteq> 0" by simp
  have r: "returns (update_time example_tracker RAYS_PER_SEC 0 2 None (Some 100))"
    by (simp add: update_time_def derive_val_def store_val_def update_eta_def
        example_tracker_def)
  from throughput_scalar_stored [OF h1 h2 h3] h1 r show ?thesis by simp
qed

text \<open>
  Claim C9. A call of \<open>update_time\<close> on a tracked key with a batch size that is not
  zero and \<open>end_time - start_time = 0\<close> raises \<open>ZeroDivisionError\<close> at line 107: the
  step and the flag are already written (lines 102 and 103), the dictionary is as it
  was, so no value is stored.
\<close>

theorem zero_duration_raises:
  assumes "name \<in> stats_to_track self" and "b \<noteq> 0" and "end_time - start_time = 0"
  shows "update_time self name start_time end_time stp (Some b) =
           Raised ZeroDivisionError
             (self\<lparr>step := stp,
                   new_key := (map_of (stats_dict self) name = None \<or> new_key self)\<rparr>) \<and>
         stats_dict (state_of (update_time self name start_time end_time stp (Some b))) =
           stats_dict self"
  using assms
  by (simp add: update_time_def derive_val_def Let_def)

theorem zero_duration_raises_witness:
  "RAYS_PER_SEC \<in> stats_to_track example_tracker \<and> (4096::int) \<noteq> 0 \<and> (3::real) - 3 = 0 \<and>
   update_time example_tracker RAYS_PER_SEC 3 3 (Some 5) (Some 4096) =
     Raised ZeroDivisionError (example_tracker\<lparr>step := Some 5, new_key := True\<rparr>) \<and>
   stats_dict (state_of (update_time example_tracker RAYS_PER_SEC 3 3 (Some 5) (Some 4096))) = []"
proof -
  have h1: "RAYS_PER_SEC \<in> stats_to_track example_tracker"
    by (simp add: example_tracker_def)
  have h2: "(4096::int) \<noteq> 0" by simp
  have h3: "(3::real) - 3 = 0" by simp
  have d: "stats_dict example_tracker = []" by (simp add: example_tracker_def)
  from zero_duration_raises [OF h1 h2 h3, of "Some 5"] h1 d show ?thesis by simp
qed

text \<open>
  Claim C10. A call of \<open>update_time\<close> on a tracked key without a step leaves
  \<open>self.step\<close> at \<open>None\<close> (line 102), whether the call then returns or raises. On that
  object \<open>handle_stats\<close>, and \<open>print_stats\<close> which calls it, raise \<open>TypeError\<close> at the
  comparison of line 144: no row and no empty output is produced.
\<close>

theorem absent_step_breaks_print:
  assumes "name \<in> stats_to_track self"
  shows "step (state_of (update_time self name start_time end_time None batch_size)) = None \<and>
         handle_stats (state_of (update_time self name start_time end_time None batch_size))
             fraction_done =
           Raised TypeError (state_of (update_time self name start_time end_time None batch_size)) \<and>
         print_stats (state_of (update_time self name start_time end_time None batch_size))
             fraction_done =
           Raised TypeError (state_of (update_time self name start_time end_time None batch_size))"
proof -
  have "step (state_of (update_time self name start_time end_time None batch_size)) = None"
    using assms
    by (simp add: update_time_def derive_val_def store_val_def update_eta_def Let_def
        split: option.splits)
  then show ?thesis by (simp add: handle_stats_def print_stats_def)
qed

theorem absent_step_breaks_print_witness:
  "RAYS_PER_SEC \<in> stats_to_track example_tracker \<and>
   returns (update_time example_tracker RAYS_PER_SEC 0 2 None (Some 100)) \<and>
   step (state_of (update_time example_tracker RAYS_PER_SEC 0 2 None (Some 100))) = None \<and>
   \<not> returns (print_stats
       (state_of (update_time example_tracker RAYS_PER_SEC 0 2 None (Some 100))) (1 / 2))"
proof -
  have h: "RAYS_PER_SEC \<in> stats_to_track example_tracker"
    by (simp add: example_tracker_def)
  have r: "returns (update_time example_tracker RAYS_PER_SEC 0 2 None (Some 100))"
    by (simp add: update_time_def derive_val_def store_val_def update_eta_def
        example_tracker_def)
  from absent_step_breaks_print [OF h, of 0 2 "Some 100" "1 / 2"] h r
  show ?thesis by simp
qed

subsection \<open>The estimate of the remaining time\<close>

text \<open>
  Claim C4. When \<open>update_time\<close> is called for \<open>ITER_TRAIN_TIME\<close> with a step, both
  \<open>ITER_TRAIN_TIME\<close> and \<open>ETA\<close> are tracked and the call returns, the entry of
  \<open>ETA\<close> is the number \<open>(max_num_iterations - step) * avg\<close>, where \<open>avg\<close> is the
  average that the same call has just stored for \<open>ITER_TRAIN_TIME\<close>. With 1000
  iterations, an average of 0.5 and step 400 it is 300.
\<close>

theorem eta_derivation:
  assumes "ITER_TRAIN_TIME \<in> stats_to_track self" and "ETA \<in> stats_to_track self"
    and "update_time self ITER_TRAIN_TIME start_time end_time (Some n) batch_size = Done () self'"
  shows "\<exists>b a. map_of (stats_dict self') ITER_TRAIN_TIME = Some (Averaged b a) \<and>
           map_of (stats_dict self') ETA =
             Some (Scalar (real_of_int (max_num_iterations (config self) - n) * a))"
  using assms
  by (auto simp add: update_time_def store_val_def update_eta_def Let_def AList.update_conv'
      split: sum.splits option.splits entry.splits if_splits)

theorem eta_derivation_witness:
  "ITER_TRAIN_TIME \<in> stats_to_track example_tracker \<and> ETA \<in> stats_to_track example_tracker \<and>
   max_num_iterations (config example_tracker) = 1000 \<and>
   update_time example_tracker ITER_TRAIN_TIME 0 (1 / 2) (Some 400) None =
     Done () eta_example_result \<and>
   map_of (stats_dict eta_example_result) ITER_TRAIN_TIME = Some (Averaged [1 / 2] (1 / 2)) \<and>
   map_of (stats_dict eta_example_result) ETA = Some (Scalar 300)"
proof -
  have h1: "ITER_TRAIN_TIME \<in> stats_to_track example_tracker"
    and h2: "ETA \<in> stats_to_track example_tracker"
    and m: "max_num_iterations (config example_tracker) = 1000"
    by (simp_all add: example_tracker_def example_config_def)
  have h3: "update_time example_tracker ITER_TRAIN_TIME 0 (1 / 2) (Some 400) None =
      Done () eta_example_result"
    by (simp add: update_time_def derive_val_def store_val_def push_history_def
        update_eta_def eta_example_result_def example_tracker_def example_config_def)
  have i: "map_of (stats_dict eta_example_result) ITER_TRAIN_TIME =
      Some (Averaged [1 / 2] (1 / 2))"
    by (simp add: eta_example_result_def)
  from eta_derivation [OF h1 h2 h3] i m
  have "map_of (stats_dict eta_example_result) ETA = Some (Scalar 300)" by auto
  with h1 h2 h3 i m show ?thesis by simp
qed

text \<open>
  Claim C5, as stated, fails: \<open>ETA\<close> is a key like any other, so a call of
  \<open>update_value\<close> or of \<open>update_time\<close> that names \<open>ETA\<close> itself writes its entry,
  with no update of \<open>ITER_TRAIN_TIME\<close> involved.
\<close>

theorem eta_written_directly_counterexample:
  "ETA \<noteq> ITER_TRAIN_TIME \<and> map_of (stats_dict example_tracker) ETA = None \<and>
   map_of (stats_dict (state_of (update_value example_tracker ETA 5 3))) ETA = Some (Scalar 5) \<and>
   map_of (stats_dict (state_of (update_time example_tracker ETA 0 7 None None))) ETA =
     Some (Scalar 7)"
  by (simp add: example_tracker_def update_value_def update_time_def derive_val_def
      store_val_def update_eta_def)

text \<open>
  Claim C5, amended. The entry of \<open>ETA\<close> is left as it was by every call of
  \<open>update_value\<close> that names another key, by every call of \<open>update_time\<close> that names
  a key other than \<open>ETA\<close> and \<open>ITER_TRAIN_TIME\<close> (or names \<open>ITER_TRAIN_TIME\<close>
  while \<open>ETA\<close> is not tracked), whether the call returns or raises, and by
  \<open>print_stats\<close> and \<open>handle_header\<close>. It is written by \<open>update_time\<close> on
  \<open>ITER_TRAIN_TIME\<close> (lines 123 to 126) and by a call that names \<open>ETA\<close> itself.
\<close>

theorem eta_only_written_by_named_calls:
  "(name \<noteq> ETA \<longrightarrow>
      map_of (stats_dict (state_of (update_value self name val n))) ETA =
        map_of (stats_dict self) ETA) \<and>
   (name \<noteq> ETA \<and> (name \<noteq> ITER_TRAIN_TIME \<or> ETA \<notin> stats_to_track self) \<longrightarrow>
      map_of (stats_dict (state_of (update_time self name start_time end_time stp batch_size))) ETA =
        map_of (stats_dict self) ETA) \<and>
   stats_dict (state_of (print_stats self fraction_done)) = stats_dict self \<and>
   stats_dict (state_of (handle_header self)) = stats_dict self"
proof -
  have 1: "name \<noteq> ETA \<longrightarrow>
      map_of (stats_dict (state_of (update_value self name val n))) ETA =
        map_of (stats_dict self) ETA"
    using update_value_other [of ETA name] by auto
  have 2: "name \<noteq> ETA \<and> (name \<noteq> ITER_TRAIN_TIME \<or> ETA \<notin> stats_to_track self) \<longrightarrow>
      map_of (stats_dict (state_of (update_time self name start_time end_time stp batch_size))) ETA =
        map_of (stats_dict self) ETA"
    using update_time_other [of ETA name self] by auto
  show ?thesis using 1 2 by (simp add: print_stats_state handle_header_state)
qed

theorem eta_only_written_by_named_calls_witness:
  "RAYS_PER_SEC \<noteq> ETA \<and> RAYS_PER_SEC \<noteq> ITER_TRAIN_TIME \<and>
   map_of (stats_dict (state_of (update_value eta_example_result RAYS_PER_SEC 9 401))) ETA =
     Some (Scalar 300) \<and>
   map_of (stats_dict (state_of (update_time eta_example_result RAYS_PER_SEC 0 2 (Some 401) None)))
     ETA = Some (Scalar 300)"
proof -
  have h: "RAYS_PER_SEC \<noteq> ETA" "RAYS_PER_SEC \<noteq> ITER_TRAIN_TIME" by simp_all
  have e: "map_of (stats_dict eta_example_result) ETA = Some (Scalar 300)"
    by (simp add: eta_example_result_def)
  from eta_only_written_by_named_calls
    [of RAYS_PER_SEC eta_example_result 9 401 0 2 "Some 401" None 0] h e
  show ?thesis by simp
qed

subsection \<open>The step counter\<close>

text \<open>
  Claim C7, as stated, fails: the code stores the step it is given (lines 83 and 102)
  and compares it with nothing, so a caller that passes 5 and then 3 makes the counter
  go down.
\<close>

theorem step_not_monotone_counterexample:
  "RAYS_PER_SEC \<in> stats_to_track example_tracker \<and>
   step (run example_tracker [Update (ValueArgs RAYS_PER_SEC 1 5)]) = Some 5 \<and>
   step (run example_tracker [Update (ValueArgs RAYS_PER_SEC 1 5),
                              Update (ValueArgs RAYS_PER_SEC 1 3)]) = Some 3 \<and>
   \<not> (5::int) \<le> 3"
  by (simp add: example_tracker_def update_value_def)

text \<open>
  Claim C7, amended. After any sequence, not empty, of calls of \<open>update_value\<close> and
  \<open>update_time\<close> on tracked keys, whether they return or raise, \<open>self.step\<close> is the
  step that the last call supplied: \<open>None\<close> when that call is \<open>update_time\<close> without
  a step. As this holds after every call of the sequence, the counter never decreases
  exactly when the supplied steps never do.
\<close>

theorem step_is_last_supplied:
  assumes "cs \<noteq> []"
    and "\<forall>a \<in> set cs. \<exists>k. arg_name a = Some k \<and> k \<in> stats_to_track self"
  shows "step (run self (map Update cs)) = arg_step (last cs)"
  using assms
proof (induction cs rule: rev_induct)
  case Nil
  then show ?case by simp
next
  case (snoc a cs)
  from snoc.prems obtain k where k: "arg_name a = Some k" "k \<in> stats_to_track self"
    by auto
  then have t: "k \<in> stats_to_track (run self (map Update cs))"
    by (simp add: run_fields)
  have "step (after (run self (map Update cs)) (Update a)) = arg_step a"
    using k(1) t by (cases a) (simp_all add: update_time_step update_value_def)
  then show ?case by (simp add: run_snoc)
qed

theorem step_is_last_supplied_witness:
  "[ValueArgs RAYS_PER_SEC 1 5, TimeArgs ITER_TRAIN_TIME 0 2 None None] \<noteq> [] \<and>
   (\<exists>k. arg_name (ValueArgs RAYS_PER_SEC 1 5) = Some k \<and> k \<in> stats_to_track example_tracker) \<and>
   (\<exists>k. arg_name (TimeArgs ITER_TRAIN_TIME 0 2 None None) = Some k \<and>
        k \<in> stats_to_track example_tracker) \<and>
   step (run example_tracker
     (map Update [ValueArgs RAYS_PER_SEC 1 5, TimeArgs ITER_TRAIN_TIME 0 2 None None])) = None"
proof -
  have h1: "[ValueArgs RAYS_PER_SEC 1 5, TimeArgs ITER_TRAIN_TIME 0 2 None None] \<noteq> []" by simp
  have h2: "\<forall>a \<in> set [ValueArgs RAYS_PER_SEC 1 5, TimeArgs ITER_TRAIN_TIME 0 2 None None].
      \<exists>k. arg_name a = Some k \<and> k \<in> stats_to_track example_tracker"
    by (simp add: example_tracker_def)
  from step_is_last_supplied [OF h1 h2] h2 show ?thesis by simp
qed

subsection \<open>The flag \<open>new_key\<close>\<close>

text \<open>
  Claim C6, as stated, fails in its second half: no statement of the class assigns
  \<open>new_key\<close> after the constructor but lines 84 and 103, which can only set it.
  \<open>print_stats\<close> returns a row and leaves the flag set.
\<close>

theorem new_key_never_cleared_counterexample:
  "new_key (state_of (update_value example_tracker RAYS_PER_SEC 1 5)) \<and>
   returns (print_stats (state_of (update_value example_tracker RAYS_PER_SEC 1 5)) (1 / 2)) \<and>
   new_key (state_of (print_stats (state_of (update_value example_tracker RAYS_PER_SEC 1 5))
     (1 / 2)))"
  by (simp add: example_tracker_def update_value_def print_stats_def handle_stats_def)

text \<open>
  Claim C6, amended. After a call of \<open>update_value\<close> or \<open>update_time\<close> the flag is
  set exactly when it was set before or the call names a tracked key that had no entry
  in \<open>stats_dict\<close> before the call; when such a call returns, the key has an entry.
  \<open>print_stats\<close>, \<open>handle_stats\<close> and \<open>handle_header\<close> leave the flag as it is:
  nothing clears it.
\<close>

theorem new_key_flag:
  "new_key (state_of (update_stats self a)) =
     (new_key self \<or>
      (\<exists>k. arg_name a = Some k \<and> k \<in> stats_to_track self \<and> map_of (stats_dict self) k = None)) \<and>
   (\<forall>k. arg_name a = Some k \<and> k \<in> stats_to_track self \<and> returns (update_stats self a) \<longrightarrow>
      map_of (stats_dict (state_of (update_stats self a))) k \<noteq> None) \<and>
   new_key (state_of (print_stats self fraction_done)) = new_key self \<and>
   new_key (state_of (handle_stats self fraction_done)) = new_key self \<and>
   new_key (state_of (handle_header self)) = new_key self"
proof -
  have 1: "new_key (state_of (update_stats self a)) =
     (new_key self \<or>
      (\<exists>k. arg_name a = Some k \<and> k \<in> stats_to_track self \<and> map_of (stats_dict self) k = None))"
  proof (cases a)
    case (ValueArgs name v n)
    then show ?thesis by (auto simp add: update_value_def)
  next
    case (TimeArgs name st en stp bs)
    show ?thesis
    proof (cases "name \<in> stats_to_track self")
      case True
      with TimeArgs show ?thesis by (auto simp add: update_time_new_key)
    next
      case False
      with TimeArgs show ?thesis by (simp add: update_time_def)
    qed
  next
    case OtherArgs
    then show ?thesis by simp
  qed
  have 2: "\<forall>k. arg_name a = Some k \<and> k \<in> stats_to_track self \<and> returns (update_stats self a) \<longrightarrow>
      map_of (stats_dict (state_of (update_stats self a))) k \<noteq> None"
  proof (cases a)
    case (ValueArgs name v n)
    then show ?thesis by (simp add: update_value_def AList.update_conv')
  next
    case (TimeArgs name st en stp bs)
    then show ?thesis using update_time_present [of name self st en stp bs] by simp
  next
    case OtherArgs
    then show ?thesis by simp
  qed
  show ?thesis using 1 2
    by (simp add: print_stats_state handle_stats_state handle_header_state)
qed

theorem new_key_flag_witness:
  "arg_name (ValueArgs RAYS_PER_SEC 1 5) = Some RAYS_PER_SEC \<and>
   RAYS_PER_SEC \<in> stats_to_track example_tracker \<and>
   returns (update_stats example_tracker (ValueArgs RAYS_PER_SEC 1 5)) \<and>
   map_of (stats_dict example_tracker) RAYS_PER_SEC = None \<and>
   \<not> new_key example_tracker \<and>
   new_key (state_of (update_stats example_tracker (ValueArgs RAYS_PER_SEC 1 5))) \<and>
   map_of (stats_dict (state_of (update_stats example_tracker (ValueArgs RAYS_PER_SEC 1 5))))
     RAYS_PER_SEC \<noteq> None"
proof -
  have h: "arg_name (ValueArgs RAYS_PER_SEC 1 5) = Some RAYS_PER_SEC"
    "RAYS_PER_SEC \<in> stats_to_track example_tracker"
    "returns (update_stats example_tracker (ValueArgs RAYS_PER_SEC 1 5))"
    "map_of (stats_dict example_tracker) RAYS_PER_SEC = None"
    "\<not> new_key example_tracker"
    by (simp_all add: example_tracker_def update_value_def)
  from new_key_flag [of example_tracker "ValueArgs RAYS_PER_SEC 1 5" 0] h
  show ?thesis by blast
qed

subsection \<open>The bounded history\<close>

lemma most_recent_snoc:
  assumes "1 \<le> mh"
  shows "push_history mh (most_recent mh vs) v = Inr (most_recent mh (vs @ [v]))"
proof (cases "nat mh \<le> length vs")
  case True
  let ?d = "length vs - nat mh"
  from assms True have d: "?d < length vs" by simp
  then have ne: "drop ?d vs = vs ! ?d # drop (Suc ?d) vs"
    by (simp add: Cons_nth_drop_Suc)
  from assms True have len: "int (length (drop ?d vs)) \<ge> mh" by simp
  from assms True have s: "length (vs @ [v]) - nat mh = Suc ?d" by simp
  have "push_history mh (drop ?d vs) v = Inr (drop (Suc ?d) vs @ [v])"
    using len ne by (simp add: push_history_def)
  moreover have "drop (Suc ?d) (vs @ [v]) = drop (Suc ?d) vs @ [v]"
    using d by simp
  ultimately show ?thesis
    unfolding most_recent_def s by simp
next
  case False
  then have "length vs - nat mh = 0" "length (vs @ [v]) - nat mh = 0" by simp_all
  moreover from False have "\<not> int (length vs) \<ge> mh" by linarith
  ultimately show ?thesis by (simp add: most_recent_def push_history_def)
qed

lemma most_recent_bounds:
  assumes "1 \<le> mh" and "vs \<noteq> []"
  shows "most_recent mh vs \<noteq> [] \<and> int (length (most_recent mh vs)) \<le> mh"
proof -
  from assms(1) have m: "1 \<le> nat mh" by simp
  from assms(2) have l: "1 \<le> length vs" by (cases vs) simp_all
  from m l have "length vs - nat mh < length vs" by arith
  then have 1: "most_recent mh vs \<noteq> []" by (simp add: most_recent_def)
  have "length (most_recent mh vs) \<le> nat mh" by (simp add: most_recent_def)
  with assms(1) have 2: "int (length (most_recent mh vs)) \<le> mh" by linarith
  from 1 2 show ?thesis by simp
qed

lemma recorded_snoc: "recorded k (cs @ [c]) = recorded k cs @ op_value k c"
  by (simp add: recorded_def)

lemma op_value_cases:
  "op_value k c = [] \<or>
   (\<exists>st en n bs v. c = Update (TimeArgs k st en (Some n) bs) \<and> derive_val st en bs = Inr v \<and>
      op_value k c = [v])"
  by (induction k c rule: op_value.induct) (auto split: sum.splits)

lemma op_value_timed:
  "op_value k (Update (TimeArgs name st en stp bs)) = [] \<Longrightarrow>
   name \<noteq> k \<or> stp = None \<or> (\<exists>e. derive_val st en bs = Inl e)"
  by (cases stp) (auto split: sum.splits if_splits)

lemma update_eta_entry:
  "map_of (stats_dict (state_of (update_eta s name stp))) k = map_of (stats_dict s) k \<or>
   (\<exists>x. map_of (stats_dict (state_of (update_eta s name stp))) k = Some (Scalar x))"
  by (simp add: update_eta_def Let_def AList.update_conv' split: option.split entry.split)

lemma update_eta_same_key:
  "map_of (stats_dict (state_of (update_eta s name stp))) name = map_of (stats_dict s) name"
  by (simp add: update_eta_def Let_def AList.update_conv' split: option.split entry.split)

lemma store_val_unstepped:
  "store_val s name v None =
     Done () (s\<lparr>stats_dict := AList.update name (Scalar v) (stats_dict s)\<rparr>)"
  by (simp add: store_val_def)

lemma store_val_stepped_entry:
  "map_of (stats_dict (state_of (store_val s name v (Some n)))) name =
     (case map_of (stats_dict s) name of
        None \<Rightarrow>
          (case push_history (max_history s) [] v of
             Inl e \<Rightarrow> None
           | Inr b' \<Rightarrow> Some (Averaged b' (sum_list b' / real (length b'))))
      | Some (Scalar x) \<Rightarrow> Some (Scalar x)
      | Some (Averaged b a) \<Rightarrow>
          (case push_history (max_history s) b v of
             Inl e \<Rightarrow> Some (Averaged b a)
           | Inr b' \<Rightarrow> Some (Averaged b' (sum_list b' / real (length b')))))"
  by (simp add: store_val_def AList.update_conv' split: option.split entry.split sum.split)

lemma store_val_stepped_returns:
  "returns (store_val s name v (Some n)) \<Longrightarrow>
   returns (update_eta (state_of (store_val s name v (Some n))) name (Some n))"
  by (auto simp add: store_val_def update_eta_def Let_def AList.update_conv'
      split: option.splits entry.splits sum.splits)

text \<open>The entry of the key that a call of \<open>update_time\<close> with a step names.\<close>

lemma update_time_stepped_entry:
  assumes "k \<in> stats_to_track s" and "derive_val st en bs = Inr v"
  shows "map_of (stats_dict (state_of (update_time s k st en (Some n) bs))) k =
     (case map_of (stats_dict s) k of
        None \<Rightarrow>
          (case push_history (max_history s) [] v of
             Inl e \<Rightarrow> None
           | Inr b' \<Rightarrow> Some (Averaged b' (sum_list b' / real (length b'))))
      | Some (Scalar x) \<Rightarrow> Some (Scalar x)
      | Some (Averaged b a) \<Rightarrow>
          (case push_history (max_history s) b v of
             Inl e \<Rightarrow> Some (Averaged b a)
           | Inr b' \<Rightarrow> Some (Averaged b' (sum_list b' / real (length b')))))"
proof -
  let ?s1 = "s\<lparr>step := Some n, new_key := (map_of (stats_dict s) k = None \<or> new_key s)\<rparr>"
  have "map_of (stats_dict (state_of (update_time s k st en (Some n) bs))) k =
      map_of (stats_dict (state_of (store_val ?s1 k v (Some n)))) k"
    using assms by (simp add: update_time_state Let_def update_eta_same_key)
  also have "\<dots> = (case map_of (stats_dict ?s1) k of
        None \<Rightarrow>
          (case push_history (max_history ?s1) [] v of
             Inl e \<Rightarrow> None
           | Inr b' \<Rightarrow> Some (Averaged b' (sum_list b' / real (length b'))))
      | Some (Scalar x) \<Rightarrow> Some (Scalar x)
      | Some (Averaged b a) \<Rightarrow>
          (case push_history (max_history ?s1) b v of
             Inl e \<Rightarrow> Some (Averaged b a)
           | Inr b' \<Rightarrow> Some (Averaged b' (sum_list b' / real (length b')))))"
    by (rule store_val_stepped_entry)
  finally have e: "map_of (stats_dict (state_of (update_time s k st en (Some n) bs))) k =
      (case map_of (stats_dict ?s1) k of
        None \<Rightarrow>
          (case push_history (max_history ?s1) [] v of
             Inl e \<Rightarrow> None
           | Inr b' \<Rightarrow> Some (Averaged b' (sum_list b' / real (length b'))))
      | Some (Scalar x) \<Rightarrow> Some (Scalar x)
      | Some (Averaged b a) \<Rightarrow>
          (case push_history (max_history ?s1) b v of
             Inl e \<Rightarrow> Some (Averaged b a)
           | Inr b' \<Rightarrow> Some (Averaged b' (sum_list b' / real (length b')))))" .
  have f: "max_history ?s1 = max_history s" "stats_dict ?s1 = stats_dict s" by simp_all
  from e show ?thesis unfolding f .
qed

lemma update_time_stepped_returns:
  assumes "k \<in> stats_to_track s" and "derive_val st en bs = Inr v"
    and "returns (store_val (s\<lparr>step := Some n,
           new_key := (map_of (stats_dict s) k = None \<or> new_key s)\<rparr>) k v (Some n))"
  shows "returns (update_time s k st en (Some n) bs)"
proof -
  let ?s1 = "s\<lparr>step := Some n, new_key := (map_of (stats_dict s) k = None \<or> new_key s)\<rparr>"
  from assms(3) obtain u s2 where d: "store_val ?s1 k v (Some n) = Done u s2"
    by (cases "store_val ?s1 k v (Some n)") simp_all
  from store_val_stepped_returns [OF assms(3)] d
  have "returns (update_eta s2 k (Some n))" by simp
  with assms(1,2) d show ?thesis by (simp add: update_time_def)
qed

text \<open>Any other operation leaves the entry of a key as it is or makes it a number.\<close>

lemma update_time_entry_weak:
  assumes "name \<noteq> k \<or> stp = None \<or> (\<exists>e. derive_val st en bs = Inl e)"
  shows "map_of (stats_dict (state_of (update_time s name st en stp bs))) k =
           map_of (stats_dict s) k \<or>
         (\<exists>x. map_of (stats_dict (state_of (update_time s name st en stp bs))) k =
           Some (Scalar x))"
proof (cases "name \<in> stats_to_track s")
  case False
  then show ?thesis by (simp add: update_time_def)
next
  case t: True
  let ?s1 = "s\<lparr>step := stp, new_key := (map_of (stats_dict s) name = None \<or> new_key s)\<rparr>"
  show ?thesis
  proof (cases "derive_val st en bs")
    case (Inl e)
    with t show ?thesis by (simp add: update_time_state)
  next
    case (Inr v)
    let ?s2 = "state_of (store_val ?s1 name v stp)"
    have st: "state_of (update_time s name st en stp bs) =
        (if returns (store_val ?s1 name v stp) then state_of (update_eta ?s2 name stp) else ?s2)"
      using t Inr by (simp add: update_time_state Let_def)
    have e2: "map_of (stats_dict ?s2) k = map_of (stats_dict s) k \<or>
        (\<exists>x. map_of (stats_dict ?s2) k = Some (Scalar x))"
    proof (cases "name = k")
      case False
      then show ?thesis by (simp add: store_val_other)
    next
      case True
      with assms Inr have "stp = None" by auto
      with True show ?thesis by (simp add: store_val_unstepped AList.update_conv')
    qed
    show ?thesis
    proof (cases "returns (store_val ?s1 name v stp)")
      case False
      with st e2 show ?thesis by simp
    next
      case True
      with st have "state_of (update_time s name st en stp bs) =
          state_of (update_eta ?s2 name stp)" by simp
      with update_eta_entry [of ?s2 name stp k] e2 show ?thesis by auto
    qed
  qed
qed

lemma update_value_entry_weak:
  "map_of (stats_dict (state_of (update_value s name v n))) k = map_of (stats_dict s) k \<or>
   (\<exists>x. map_of (stats_dict (state_of (update_value s name v n))) k = Some (Scalar x))"
  by (simp add: update_value_def AList.update_conv')

lemma after_entry_weak:
  assumes "op_value k c = []"
  shows "map_of (stats_dict (after s c)) k = map_of (stats_dict s) k \<or>
         (\<exists>x. map_of (stats_dict (after s c)) k = Some (Scalar x))"
proof (cases c)
  case (Print fd)
  then show ?thesis by (simp add: print_stats_state)
next
  case (Update a)
  show ?thesis
  proof (cases a)
    case (ValueArgs name v n)
    with Update show ?thesis using update_value_entry_weak [of s name v n k] by simp
  next
    case (TimeArgs name st en stp bs)
    with Update assms have "name \<noteq> k \<or> stp = None \<or> (\<exists>e. derive_val st en bs = Inl e)"
      using op_value_timed [of k name st en stp bs] by simp
    from update_time_entry_weak [OF this, of s] Update TimeArgs show ?thesis by simp
  next
    case OtherArgs
    with Update show ?thesis by simp
  qed
qed

text \<open>Every operation keeps the entry of a key in step with the values recorded for it.\<close>

lemma tracks_after:
  assumes "tracks (k \<in> stats_to_track s) (max_history s) (map_of (stats_dict s) k) vs"
  shows "tracks (k \<in> stats_to_track s) (max_history s) (map_of (stats_dict (after s c)) k)
           (vs @ op_value k c)"
proof (cases "op_value k c = []")
  case True
  from after_entry_weak [OF True, of s] assms True show ?thesis by auto
next
  case False
  with op_value_cases [of k c] obtain st en n bs v
    where c: "c = Update (TimeArgs k st en (Some n) bs)"
      and d: "derive_val st en bs = Inr v" and o: "op_value k c = [v]"
    by blast
  show ?thesis
  proof (cases "k \<in> stats_to_track s")
    case False
    with c have a: "after s c = s" by (simp add: update_time_def)
    show ?thesis
    proof (cases "map_of (stats_dict s) k")
      case None
      with a False show ?thesis by simp
    next
      case (Some en)
      with a False assms show ?thesis by (cases en) simp_all
    qed
  next
    case t: True
    note e = update_time_stepped_entry [OF t d, of n]
    show ?thesis
    proof (cases "map_of (stats_dict s) k")
      case None
      show ?thesis
      proof (cases "1 \<le> max_history s")
        case True
        with assms None t have "vs = []" by simp
        moreover from most_recent_snoc [OF True, of "[]" v]
        have "push_history (max_history s) [] v = Inr (most_recent (max_history s) [v])"
          by (simp add: most_recent_def)
        moreover have "most_recent (max_history s) [v] = [v]"
          using True by (simp add: most_recent_def)
        ultimately show ?thesis using e None c o t True by simp
      next
        case False
        then have "push_history (max_history s) [] v = Inl IndexError"
          by (simp add: push_history_def)
        with e None c o False show ?thesis by simp
      qed
    next
      case (Some en)
      show ?thesis
      proof (cases en)
        case (Scalar x)
        with e Some c show ?thesis by simp
      next
        case (Averaged b a)
        with assms Some t have m: "1 \<le> max_history s" and b: "b = most_recent (max_history s) vs"
          by simp_all
        from most_recent_snoc [OF m, of vs v] b
        have "push_history (max_history s) b v = Inr (most_recent (max_history s) (vs @ [v]))"
          by simp
        with e Some Averaged c o t m show ?thesis by simp
      qed
    qed
  qed
qed

lemma tracks_run:
  assumes "map_of (stats_dict s) k = None"
  shows "tracks (k \<in> stats_to_track s) (max_history s) (map_of (stats_dict (run s cs)) k)
           (recorded k cs)"
proof (induction cs rule: rev_induct)
  case Nil
  with assms show ?case by (simp add: recorded_def)
next
  case (snoc c cs)
  from snoc.IH have "tracks (k \<in> stats_to_track (run s cs)) (max_history (run s cs))
      (map_of (stats_dict (run s cs)) k) (recorded k cs)"
    by (simp add: run_fields)
  from tracks_after [OF this, of c] show ?case
    by (simp add: run_fields run_snoc recorded_snoc)
qed

text \<open>
  While every call that names a key is a call of \<open>update_time\<close> with a step, and the
  estimate is not derived into that key, its entry never becomes a plain number.
\<close>

lemma update_time_raised_early:
  "derive_val st en bs = Inl e \<Longrightarrow>
   stats_dict (state_of (update_time s name st en stp bs)) = stats_dict s"
  by (cases "name \<in> stats_to_track s") (simp_all add: update_time_state update_time_def)

lemma not_scalar_after:
  assumes n: "\<forall>x. map_of (stats_dict s) k \<noteq> Some (Scalar x)"
    and st: "op_key c = Some k \<longrightarrow> stepped c"
    and eta: "k = ETA \<longrightarrow> op_key c \<noteq> Some ITER_TRAIN_TIME"
  shows "\<forall>x. map_of (stats_dict (after s c)) k \<noteq> Some (Scalar x)"
proof (cases c)
  case (Print fd)
  with n show ?thesis by (simp add: print_stats_state)
next
  case (Update a)
  show ?thesis
  proof (cases a)
    case OtherArgs
    with Update n show ?thesis by simp
  next
    case (ValueArgs name v m)
    with Update st have "k \<noteq> name" by auto
    with Update ValueArgs n show ?thesis by (simp add: update_value_other)
  next
    case (TimeArgs name start_time end_time stp bs)
    show ?thesis
    proof (cases "k = name")
      case False
      moreover from eta Update TimeArgs
      have "k \<noteq> ETA \<or> name \<noteq> ITER_TRAIN_TIME \<or> ETA \<notin> stats_to_track s" by auto
      ultimately show ?thesis using Update TimeArgs n by (simp add: update_time_other)
    next
      case True
      with st Update TimeArgs obtain m where m: "stp = Some m" by (cases stp) auto
      show ?thesis
      proof (cases "k \<in> stats_to_track s")
        case False
        with True Update TimeArgs n show ?thesis by (simp add: update_time_def)
      next
        case t: True
        show ?thesis
        proof (cases "derive_val start_time end_time bs")
          case (Inl e)
          from update_time_raised_early [OF Inl, of s name stp] Update TimeArgs n
          show ?thesis by simp
        next
          case (Inr v)
          from update_time_stepped_entry [OF t Inr, of m] True m Update TimeArgs n
          show ?thesis by (auto split: option.splits entry.splits sum.splits)
        qed
      qed
    qed
  qed
qed

lemma not_scalar_run:
  assumes "map_of (stats_dict s) k = None"
    and "\<forall>c \<in> set cs. op_key c = Some k \<longrightarrow> stepped c"
    and "k = ETA \<longrightarrow> (\<forall>c \<in> set cs. op_key c \<noteq> Some ITER_TRAIN_TIME)"
  shows "\<forall>x. map_of (stats_dict (run s cs)) k \<noteq> Some (Scalar x)"
  using assms(2,3)
proof (induction cs rule: rev_induct)
  case Nil
  with assms(1) show ?case by simp
next
  case (snoc c cs)
  then have "\<forall>x. map_of (stats_dict (run s cs)) k \<noteq> Some (Scalar x)" by simp
  moreover from snoc.prems have "op_key c = Some k \<longrightarrow> stepped c"
    and "k = ETA \<longrightarrow> op_key c \<noteq> Some ITER_TRAIN_TIME" by simp_all
  ultimately have "\<forall>x. map_of (stats_dict (after (run s cs) c)) k \<noteq> Some (Scalar x)"
    by (rule not_scalar_after)
  then show ?case by (simp add: run_snoc)
qed

lemma example_run_entry:
  "map_of (stats_dict (run example_tracker example_calls)) RAYS_PER_SEC =
     Some (Averaged [3, 5] 4)"
  by code_simp

lemma example_recorded: "recorded RAYS_PER_SEC example_calls = [1, 3, 5]"
  by code_simp

text \<open>
  Claim C1. Start from an object in which key \<open>k\<close> has no entry, as in a new one, and
  make any sequence of calls of \<open>update_value\<close>, \<open>update_time\<close> and \<open>print_stats\<close>,
  on any keys, returning or raising. Whenever \<open>k\<close> then holds a buffer and an average,
  the buffer is not empty, the average is the sum of the buffer divided by its length,
  and the buffer is the last \<open>max_history\<close> values (all of them when there are fewer)
  that the calls of \<open>update_time\<close> with a step derived for \<open>k\<close>, in the order of the
  calls. As the sequence is arbitrary, this holds after each call.

  And \<open>k\<close> does hold a buffer and an average once a value was recorded for it, when
  \<open>k\<close> is tracked, \<open>max_history\<close> is at least one, every call that names \<open>k\<close> is a
  call of \<open>update_time\<close> with a step, and, for \<open>k\<close> the key \<open>ETA\<close>, no call names
  \<open>ITER_TRAIN_TIME\<close>.
\<close>

theorem average_is_mean_of_recent:
  assumes "map_of (stats_dict self) k = None"
  shows "(\<forall>b a. map_of (stats_dict (run self cs)) k = Some (Averaged b a) \<longrightarrow>
            b \<noteq> [] \<and> a = sum_list b / real (length b) \<and>
            b = most_recent (max_history self) (recorded k cs)) \<and>
         (k \<in> stats_to_track self \<and> 1 \<le> max_history self \<and> recorded k cs \<noteq> [] \<and>
          (\<forall>c \<in> set cs. op_key c = Some k \<longrightarrow> stepped c) \<and>
          (k = ETA \<longrightarrow> (\<forall>c \<in> set cs. op_key c \<noteq> Some ITER_TRAIN_TIME)) \<longrightarrow>
            (\<exists>b a. map_of (stats_dict (run self cs)) k = Some (Averaged b a)))"
proof -
  note tr = tracks_run [OF assms, of cs]
  have 1: "\<forall>b a. map_of (stats_dict (run self cs)) k = Some (Averaged b a) \<longrightarrow>
            b \<noteq> [] \<and> a = sum_list b / real (length b) \<and>
            b = most_recent (max_history self) (recorded k cs)"
  proof (intro allI impI)
    fix b a
    assume e: "map_of (stats_dict (run self cs)) k = Some (Averaged b a)"
    with tr have m: "1 \<le> max_history self" and v: "recorded k cs \<noteq> []"
      and b: "b = most_recent (max_history self) (recorded k cs)"
      and a: "a = sum_list b / real (length b)"
      by simp_all
    from most_recent_bounds [OF m v] b have "b \<noteq> []" by simp
    with a b show "b \<noteq> [] \<and> a = sum_list b / real (length b) \<and>
        b = most_recent (max_history self) (recorded k cs)" by simp
  qed
  have 2: "k \<in> stats_to_track self \<and> 1 \<le> max_history self \<and> recorded k cs \<noteq> [] \<and>
          (\<forall>c \<in> set cs. op_key c = Some k \<longrightarrow> stepped c) \<and>
          (k = ETA \<longrightarrow> (\<forall>c \<in> set cs. op_key c \<noteq> Some ITER_TRAIN_TIME)) \<longrightarrow>
            (\<exists>b a. map_of (stats_dict (run self cs)) k = Some (Averaged b a))"
  proof
    assume h: "k \<in> stats_to_track self \<and> 1 \<le> max_history self \<and> recorded k cs \<noteq> [] \<and>
          (\<forall>c \<in> set cs. op_key c = Some k \<longrightarrow> stepped c) \<and>
          (k = ETA \<longrightarrow> (\<forall>c \<in> set cs. op_key c \<noteq> Some ITER_TRAIN_TIME))"
    then have ns: "\<forall>x. map_of (stats_dict (run self cs)) k \<noteq> Some (Scalar x)"
      using not_scalar_run [OF assms, of cs] by blast
    show "\<exists>b a. map_of (stats_dict (run self cs)) k = Some (Averaged b a)"
    proof (cases "map_of (stats_dict (run self cs)) k")
      case None
      with tr h show ?thesis by simp
    next
      case (Some en)
      with ns show ?thesis by (cases en) simp_all
    qed
  qed
  from 1 2 show ?thesis by blast
qed

theorem average_is_mean_of_recent_witness:
  "map_of (stats_dict example_tracker) RAYS_PER_SEC = None \<and>
   RAYS_PER_SEC \<in> stats_to_track example_tracker \<and> 1 \<le> max_history example_tracker \<and>
   recorded RAYS_PER_SEC example_calls \<noteq> [] \<and>
   list_all (\<lambda>c. op_key c \<noteq> Some RAYS_PER_SEC \<or> stepped c) example_calls \<and>
   RAYS_PER_SEC \<noteq> ETA \<and>
   map_of (stats_dict (run example_tracker example_calls)) RAYS_PER_SEC =
     Some (Averaged [3, 5] 4) \<and>
   recorded RAYS_PER_SEC example_calls = [1, 3, 5] \<and>
   max_history example_tracker = 2 \<and>
   [3, 5] = most_recent 2 [1, 3, 5 :: real] \<and>
   (4 :: real) = sum_list [3, 5] / real (length [3, 5 :: real])"
proof -
  have h1: "map_of (stats_dict example_tracker) RAYS_PER_SEC = None"
    and m: "max_history example_tracker = 2"
    and t: "RAYS_PER_SEC \<in> stats_to_track example_tracker"
    and m1: "1 \<le> max_history example_tracker"
    by (simp_all add: example_tracker_def)
  have st: "list_all (\<lambda>c. op_key c \<noteq> Some RAYS_PER_SEC \<or> stepped c) example_calls"
    by (simp add: example_calls_def)
  have ne: "recorded RAYS_PER_SEC example_calls \<noteq> []" by (simp add: example_recorded)
  have k: "RAYS_PER_SEC \<noteq> ETA" by simp
  note h2 = example_run_entry
  note th = average_is_mean_of_recent [OF h1, of example_calls, unfolded example_recorded m]
  from th h2 have c: "(4 :: real) = sum_list [3, 5] / real (length [3, 5 :: real])"
    "[3, 5] = most_recent 2 [1, 3, 5 :: real]" by blast+
  from c h1 h2 t m1 ne st k example_recorded m show ?thesis by blast
qed

text \<open>
  Claim C2. In the same situation the buffer of \<open>k\<close> never holds more than
  \<open>max_history\<close> values. When it holds exactly \<open>max_history\<close> values, a further call
  of \<open>update_time\<close> for \<open>k\<close> with a step, whose value \<open>v\<close> is derived without an
  error, returns and leaves the buffer without its first (oldest) element and with \<open>v\<close>
  appended, so again with \<open>max_history\<close> values.
\<close>

theorem buffer_bounded_and_evicts_oldest:
  assumes "map_of (stats_dict self) k = None"
    and "map_of (stats_dict (run self cs)) k = Some (Averaged b a)"
  shows "int (length b) \<le> max_history self \<and>
         (int (length b) = max_history self \<and> derive_val start_time end_time batch_size = Inr v \<longrightarrow>
            b = hd b # tl b \<and>
            returns (update_time (run self cs) k start_time end_time (Some n) batch_size) \<and>
            map_of (stats_dict (state_of
                (update_time (run self cs) k start_time end_time (Some n) batch_size))) k =
              Some (Averaged (tl b @ [v]) (sum_list (tl b @ [v]) / real (length (tl b @ [v])))) \<and>
            int (length (tl b @ [v])) = max_history self)"
proof -
  let ?s = "run self cs"
  from tracks_run [OF assms(1), of cs] assms(2)
  have t: "k \<in> stats_to_track self" and m: "1 \<le> max_history self"
    and v: "recorded k cs \<noteq> []"
    and b: "b = most_recent (max_history self) (recorded k cs)"
    by simp_all
  from most_recent_bounds [OF m v] b
  have ne: "b \<noteq> []" and le: "int (length b) \<le> max_history self" by simp_all
  from ne have hd: "b = hd b # tl b" by simp
  have ts: "k \<in> stats_to_track ?s" and ms: "max_history ?s = max_history self"
    using t by (simp_all add: run_fields)
  {
    assume full: "int (length b) = max_history self"
      and d: "derive_val start_time end_time batch_size = Inr v"
    from full hd have p: "push_history (max_history ?s) b v = Inr (tl b @ [v])"
      unfolding ms by (cases b) (simp_all add: push_history_def)
    let ?s1 = "?s\<lparr>step := Some n, new_key := (map_of (stats_dict ?s) k = None \<or> new_key ?s)\<rparr>"
    have "store_val ?s1 k v (Some n) =
        Done () (?s1\<lparr>stats_dict := AList.update k
          (Averaged (tl b @ [v]) (sum_list (tl b @ [v]) / real (length (tl b @ [v]))))
          (stats_dict ?s1)\<rparr>)"
      using assms(2) p by (simp add: store_val_def)
    then have "returns (store_val ?s1 k v (Some n))" by simp
    from update_time_stepped_returns [OF ts d this]
    have r: "returns (update_time ?s k start_time end_time (Some n) batch_size)" .
    from update_time_stepped_entry [OF ts d, of n] assms(2) p
    have e: "map_of (stats_dict (state_of
        (update_time ?s k start_time end_time (Some n) batch_size))) k =
        Some (Averaged (tl b @ [v]) (sum_list (tl b @ [v]) / real (length (tl b @ [v]))))"
      by simp
    from full ne have "int (length (tl b @ [v])) = max_history self"
      by (cases b) simp_all
    note hd r e this
  }
  with le show ?thesis by blast
qed

theorem buffer_bounded_and_evicts_oldest_witness:
  "map_of (stats_dict example_tracker) RAYS_PER_SEC = None \<and>
   map_of (stats_dict (run example_tracker example_calls)) RAYS_PER_SEC =
     Some (Averaged [3, 5] 4) \<and>
   int (length [3, 5 :: real]) = max_history example_tracker \<and>
   derive_val 0 7 None = Inr 7 \<and>
   returns (update_time (run example_tracker example_calls) RAYS_PER_SEC 0 7 (Some 5) None) \<and>
   map_of (stats_dict (state_of
       (update_time (run example_tracker example_calls) RAYS_PER_SEC 0 7 (Some 5) None)))
     RAYS_PER_SEC = Some (Averaged [5, 7] 6)"
proof -
  have h1: "map_of (stats_dict example_tracker) RAYS_PER_SEC = None"
    and full: "int (length [3, 5 :: real]) = max_history example_tracker"
    by (simp_all add: example_tracker_def)
  note h2 = example_run_entry
  have d: "derive_val 0 7 None = Inr 7" by (simp add: derive_val_def)
  from buffer_bounded_and_evicts_oldest [OF h1 h2, of 0 7 None 7 5] full d
  have r: "returns (update_time (run example_tracker example_calls) RAYS_PER_SEC 0 7 (Some 5) None)"
    and e: "map_of (stats_dict (state_of
          (update_time (run example_tracker example_calls) RAYS_PER_SEC 0 7 (Some 5) None)))
        RAYS_PER_SEC =
        Some (Averaged (tl [3, 5] @ [7])
          (sum_list (tl [3, 5] @ [7]) / real (length (tl [3, 5 :: real] @ [7]))))"
    by blast+
  from e have "map_of (stats_dict (state_of
          (update_time (run example_tracker example_calls) RAYS_PER_SEC 0 7 (Some 5) None)))
        RAYS_PER_SEC = Some (Averaged [5, 7] 6)"
    by simp
  with h1 h2 full d r show ?thesis by blast
qed

end
